theory Spec2Isabelle
  imports Main "HOL-Library.AList" "HOL-Library.Word"
begin

section \<open>Data model of app.py\<close>

text \<open>
  A WebSocket object is used by the program only as a hashable handle (a dictionary key)
  with a \<open>send_text\<close> that may raise; it is modelled as a number naming the connection.
\<close>

type_synonym ws = nat

text \<open>The value \<open>{'nick': nick, 'color': color}\<close> stored per connection.\<close>

record info =
  nick :: string
  color :: string

text \<open>
  Python dictionaries keep insertion order, and the room list is built by iterating
  \<open>rooms.items()\<close>, so a dictionary is an association list: \<open>map_of\<close> reads a key,
  \<open>AList.update\<close> is \<open>d[k] = v\<close> (an existing key keeps its position, a new key goes
  to the end) and \<open>AList.delete\<close> is \<open>del d[k]\<close>.
\<close>

type_synonym members = "(ws \<times> info) list"
type_synonym registry = "(string \<times> members) list"

text \<open>
  Values that \<open>json.loads\<close> can return and \<open>json.dumps\<close> can serialise. A non-integer
  number is carried as its literal: the program never computes with it.
\<close>

datatype json =
    JNull
  | JBool bool
  | JInt int
  | JFloat string
  | JStr string
  | JArr "json list"
  | JObj "(string \<times> json) list"

text \<open>
  One call of \<open>ws.send_text(json.dumps(message))\<close>: the connection, the message, and
  whether the call returned (\<open>True\<close>) or raised (\<open>False\<close>).
\<close>

type_synonym attempt = "ws \<times> json \<times> bool"

text \<open>
  The process state: the global \<open>rooms\<close> and the history of send attempts in program
  order. The network is a parameter \<open>net\<close> of every operation that sends: \<open>net n\<close> tells
  whether the send attempt number \<open>n\<close> (counted from 0 over the whole history) succeeds,
  so any pattern of failures can be expressed. An operation (a broadcast, a join, one
  iteration of the relay loop, the cleanup) runs to completion before the next one starts:
  the interleaving of several handlers at the awaits inside one operation is not modelled.
\<close>

record state =
  rooms :: registry
  wire :: "attempt list"

type_synonym net = "nat \<Rightarrow> bool"

datatype exn = WebSocketDisconnect | AttributeError | TypeError | SendError

section \<open>The defaultdict\<close>

text \<open>
  \<open>rooms = defaultdict(dict)\<close>: evaluating \<open>rooms[room]\<close> for a missing key inserts
  \<open>room -> {}\<close> and yields the new empty dictionary. \<open>touch\<close> is that side effect,
  \<open>members_of\<close> the dictionary read.
\<close>

definition touch :: "string \<Rightarrow> registry \<Rightarrow> registry" where
  "touch room rs = (case map_of rs room of Some m \<Rightarrow> rs | None \<Rightarrow> rs @ [(room, [])])"

definition members_of :: "string \<Rightarrow> registry \<Rightarrow> members" where
  "members_of room rs = (case map_of rs room of Some m \<Rightarrow> m | None \<Rightarrow> [])"

section \<open>broadcast\<close>

text \<open>
  The send loop of \<open>broadcast\<close> (lines 179-184) over the snapshot \<open>conns\<close>: every
  connection is tried, a raising send only appends the connection to \<open>to_remove\<close>.
  \<open>json.dumps\<close> cannot raise on a \<open>json\<close> value.
\<close>

fun send_loop :: "net \<Rightarrow> json \<Rightarrow> ws list \<Rightarrow> attempt list \<Rightarrow> ws list \<Rightarrow> attempt list \<times> ws list" where
  "send_loop nt message [] w to_remove = (w, to_remove)"
| "send_loop nt message (c # conns) w to_remove =
     (if nt (length w)
      then send_loop nt message conns (w @ [(c, message, True)]) to_remove
      else send_loop nt message conns (w @ [(c, message, False)]) (to_remove @ [c]))"

text \<open>The removal loop of \<open>broadcast\<close> (lines 187-189).\<close>

fun prune :: "string \<Rightarrow> ws list \<Rightarrow> registry \<Rightarrow> registry" where
  "prune room [] rs = rs"
| "prune room (c # to_remove) rs =
     (let rs' = touch room rs; m = members_of room rs'
      in prune room to_remove
           (case map_of m c of
              Some i \<Rightarrow> AList.update room (AList.delete c m) rs'
            | None \<Rightarrow> rs'))"

definition broadcast :: "net \<Rightarrow> string \<Rightarrow> json \<Rightarrow> state \<Rightarrow> state" where
  "broadcast nt room message st =
     (let rs = touch room (rooms st);
          conns = map fst (members_of room rs);
          (w, to_remove) = send_loop nt message conns (wire st) []
      in \<lparr>rooms = (if to_remove \<noteq> [] then prune room to_remove rs else rs), wire = w\<rparr>)"

text \<open>
  The connections of a snapshot whose send raises, when the first attempt has number \<open>n\<close>:
  what the send loop leaves in \<open>to_remove\<close>.
\<close>

definition failed :: "net \<Rightarrow> nat \<Rightarrow> ws list \<Rightarrow> ws list" where
  "failed nt n conns = map snd (filter (\<lambda>(k, c). \<not> nt k) (enumerate n conns))"

section \<open>list_rooms\<close>

text \<open>The comprehension \<open>[r for r, m in rooms.items() if len(m) > 0]\<close>.\<close>

definition active :: "registry \<Rightarrow> string list" where
  "active rs = map fst (filter (\<lambda>(r, m). length m > 0) rs)"

text \<open>\<open>list_rooms\<close> returns the dictionary \<open>{"rooms": active}\<close>.\<close>

definition list_rooms :: "state \<Rightarrow> (string \<times> string list) list" where
  "list_rooms st = [(''rooms'', active (rooms st))]"

section \<open>Identity\<close>

text \<open>
  \<open>secrets.token_hex(2)\<close> renders two random bytes as four lower-case hexadecimal digits;
  the two bytes are the 16-bit word \<open>tok\<close>, most significant byte first.
  \<open>secrets.randbelow(360)\<close> is the number \<open>hue\<close>, printed in decimal by the f-string.
\<close>

definition hexdigit :: "nat \<Rightarrow> char" where
  "hexdigit d = ''0123456789abcdef'' ! (d mod 16)"

definition token_hex :: "16 word \<Rightarrow> string" where
  "token_hex tok =
     (let n = unat tok
      in [hexdigit (n div 4096), hexdigit (n div 256), hexdigit (n div 16), hexdigit n])"

fun str_nat :: "nat \<Rightarrow> string" where
  "str_nat n =
     (if n < 10 then [''0123456789'' ! n]
      else str_nat (n div 10) @ [''0123456789'' ! (n mod 10)])"

definition make_info :: "16 word \<Rightarrow> nat \<Rightarrow> info" where
  "make_info tok hue =
     \<lparr>nick = ''Anon-'' @ token_hex tok, color = ''hsl('' @ str_nat hue @ '' 70% 55%)''\<rparr>"

section \<open>Messages\<close>

definition info_json :: "info \<Rightarrow> json" where
  "info_json i = JObj [(''nick'', JStr (nick i)), (''color'', JStr (color i))]"

definition meta_msg :: "info \<Rightarrow> json" where
  "meta_msg i = JObj [(''type'', JStr ''meta''), (''you'', info_json i)]"

definition system_msg :: "string \<Rightarrow> string \<Rightarrow> json" where
  "system_msg text kind =
     JObj [(''type'', JStr ''system''), (''text'', JStr text), (''nick'', JStr ''System''),
           (''color'', JStr ''#666''), (''system'', JStr kind)]"

definition rooms_msg :: "string list \<Rightarrow> json" where
  "rooms_msg room_list = JObj [(''type'', JStr ''rooms''), (''rooms'', JArr (map JStr room_list))]"

definition chat_msg :: "json \<Rightarrow> info \<Rightarrow> json" where
  "chat_msg text sender =
     JObj [(''type'', JStr ''msg''), (''text'', text), (''nick'', JStr (nick sender)),
           (''color'', JStr (color sender))]"

section \<open>websocket_endpoint\<close>

text \<open>\<open>q.get('room', 'lobby') or 'lobby'\<close>: a missing or empty parameter gives the lobby.\<close>

definition resolve_room :: "string option \<Rightarrow> string" where
  "resolve_room q = (case q of None \<Rightarrow> ''lobby'' | Some r \<Rightarrow> if r = [] then ''lobby'' else r)"

text \<open>Lines 218-219, \<open>rooms[room][websocket] = info\<close>.\<close>

definition register :: "ws \<Rightarrow> string \<Rightarrow> info \<Rightarrow> registry \<Rightarrow> registry" where
  "register c room i rs0 =
     (let rs = touch room rs0
      in AList.update room (AList.update c i (members_of room rs)) rs)"

text \<open>
  Lines 212-228. The send of the meta message is outside every \<open>try\<close>: when it raises, the
  exception leaves the handler with the connection still registered.
\<close>

definition join :: "net \<Rightarrow> ws \<Rightarrow> string \<Rightarrow> 16 word \<Rightarrow> nat \<Rightarrow> state \<Rightarrow> (exn \<times> state) + state" where
  "join nt c room tok hue st =
     (let i = make_info tok hue;
          st1 = st\<lparr>rooms := register c room i (rooms st)\<rparr>
      in if nt (length (wire st1))
         then
           (let st2 = st1\<lparr>wire := wire st1 @ [(c, meta_msg i, True)]\<rparr>;
                st3 = broadcast nt room (system_msg (nick i @ '' joined.'') ''join'') st2;
                room_list = active (rooms st3)
            in Inr (broadcast nt room (rooms_msg room_list) st3))
         else Inl (SendError, st1\<lparr>wire := wire st1 @ [(c, meta_msg i, False)]\<rparr>))"

text \<open>
  \<open>x[:2000]\<close> on the value of the \<open>text\<close> key: strings and lists are sliced, every other
  value (number, boolean, \<open>None\<close>, dictionary) raises, which the handler's outer
  \<open>except Exception\<close> catches like any other exception.
\<close>

fun slice2000 :: "json \<Rightarrow> json option" where
  "slice2000 (JStr s) = Some (JStr (take 2000 s))"
| "slice2000 (JArr xs) = Some (JArr (take 2000 xs))"
| "slice2000 _ = None"

text \<open>
  One iteration of the relay loop (lines 232-242) on a received text \<open>data\<close>. The standard
  library's \<open>json.loads\<close> is not part of the program: its outcome on \<open>data\<close> is the
  argument \<open>parsed\<close>, \<open>None\<close> when it raises. Only a dictionary has \<open>get\<close>; on any other
  value \<open>payload.get\<close> raises AttributeError.
\<close>

definition on_text :: "net \<Rightarrow> ws \<Rightarrow> string \<Rightarrow> info \<Rightarrow> string \<Rightarrow> json option \<Rightarrow> state \<Rightarrow> (exn \<times> state) + state" where
  "on_text nt c room i data parsed st =
     (let payload = (case parsed of
                       Some p \<Rightarrow> p
                     | None \<Rightarrow> JObj [(''type'', JStr ''msg''), (''text'', JStr data)])
      in case payload of
           JObj d \<Rightarrow>
             if map_of d ''type'' = Some (JStr ''msg'')
             then (case slice2000 (case map_of d ''text'' of Some t \<Rightarrow> t | None \<Rightarrow> JStr []) of
                     None \<Rightarrow> Inl (TypeError, st)
                   | Some text \<Rightarrow>
                       (let rs = touch room (rooms st);
                            sender = (case map_of (members_of room rs) c of
                                        Some j \<Rightarrow> j | None \<Rightarrow> i)
                        in Inr (broadcast nt room (chat_msg text sender) (st\<lparr>rooms := rs\<rparr>))))
             else Inr st
         | _ \<Rightarrow> Inl (AttributeError, st))"

text \<open>
  What \<open>receive_text\<close> yields: a text frame together with the outcome of \<open>json.loads\<close> on
  it, or the closure of the connection.
\<close>

datatype inbound = Text string "json option" | Disconnect

text \<open>
  The loop \<open>while True\<close> over the frames that arrive. With no frame left the handler is
  suspended in \<open>receive_text\<close> (\<open>Inr\<close>); an exception ends the loop (\<open>Inl\<close>).
\<close>

fun relay :: "net \<Rightarrow> ws \<Rightarrow> string \<Rightarrow> info \<Rightarrow> inbound list \<Rightarrow> state \<Rightarrow> (exn \<times> state) + state" where
  "relay nt c room i [] st = Inr st"
| "relay nt c room i (Disconnect # frames) st = Inl (WebSocketDisconnect, st)"
| "relay nt c room i (Text data parsed # frames) st =
     (case on_text nt c room i data parsed st of
        Inl e \<Rightarrow> Inl e
      | Inr st' \<Rightarrow> relay nt c room i frames st')"

text \<open>Lines 249-259: the registry part of the \<open>finally\<close> block, yielding \<open>left\<close>.\<close>

definition leave :: "ws \<Rightarrow> string \<Rightarrow> registry \<Rightarrow> string \<times> registry" where
  "leave c room rs0 =
     (let rs = touch room rs0;
          m = members_of room rs;
          (left, rs1) = (case map_of m c of
                           Some i \<Rightarrow> (nick i, AList.update room (AList.delete c m) rs)
                         | None \<Rightarrow> (''Someone'', rs));
          rs2 = touch room rs1
      in (left, if length (members_of room rs2) = 0 then AList.delete room rs2 else rs2))"

text \<open>Line 260: the leave notice, sent after the registry part.\<close>

definition leave_notice :: "net \<Rightarrow> ws \<Rightarrow> string \<Rightarrow> state \<Rightarrow> state" where
  "leave_notice nt c room st =
     (let (left, rs) = leave c room (rooms st)
      in broadcast nt room (system_msg (left @ '' left.'') ''leave'') (st\<lparr>rooms := rs\<rparr>))"

text \<open>The whole \<open>finally\<close> block (lines 248-265).\<close>

definition cleanup :: "net \<Rightarrow> ws \<Rightarrow> string \<Rightarrow> state \<Rightarrow> state" where
  "cleanup nt c room st =
     (let st1 = leave_notice nt c room st;
          room_list = active (rooms st1)
      in if map_of (rooms st1) room \<noteq> None
         then broadcast nt room (rooms_msg room_list) st1
         else st1)"

text \<open>
  The handler from \<open>accept\<close> on. An exception of the join phase escapes; one of the relay
  loop is swallowed and followed by the cleanup.
\<close>

datatype outcome = Raised exn state | Waiting state | Returned state

definition websocket_endpoint :: "net \<Rightarrow> ws \<Rightarrow> string option \<Rightarrow> 16 word \<Rightarrow> nat \<Rightarrow> inbound list \<Rightarrow> state \<Rightarrow> outcome" where
  "websocket_endpoint nt c q tok hue frames st =
     (let room = resolve_room q
      in case join nt c room tok hue st of
           Inl (e, st1) \<Rightarrow> Raised e st1
         | Inr st1 \<Rightarrow>
             (case relay nt c room (make_info tok hue) frames st1 of
                Inr st2 \<Rightarrow> Waiting st2
              | Inl (e, st2) \<Rightarrow> Returned (cleanup nt c room st2)))"

text \<open>The state a join or a relay step leaves behind, whether it raised or not.\<close>

definition state_of :: "(exn \<times> state) + state \<Rightarrow> state" where
  "state_of r = (case r of Inl (e, s) \<Rightarrow> s | Inr s \<Rightarrow> s)"

text \<open>
  The states the process can be in: it starts with an empty registry, and every step is one
  of the operations above, run to completion, by any connection on any room.
\<close>

inductive reachable :: "state \<Rightarrow> bool" where
  start: "reachable \<lparr>rooms = [], wire = []\<rparr>"
| join: "reachable st \<Longrightarrow> reachable (state_of (join nt c room tok hue st))"
| on_text: "reachable st \<Longrightarrow> reachable (state_of (on_text nt c room i data parsed st))"
| cleanup: "reachable st \<Longrightarrow> reachable (cleanup nt c room st)"
| broadcast: "reachable st \<Longrightarrow> reachable (broadcast nt room message st)"

section \<open>Dictionary lemmas\<close>

lemma map_of_touch_same: "map_of (touch room rs) room = Some (members_of room rs)"
  by (simp add: touch_def members_of_def map_add_def split: option.splits)

lemma map_of_touch_other: "r \<noteq> room \<Longrightarrow> map_of (touch room rs) r = map_of rs r"
  by (simp add: touch_def map_add_def split: option.splits)

lemma members_of_touch: "members_of r (touch room rs) = members_of r rs"
  by (cases "r = room") (simp_all add: members_of_def map_of_touch_same map_of_touch_other split: option.splits)

lemma touch_idem: "touch room (touch room rs) = touch room rs"
  by (simp add: touch_def[of room "touch room rs"] map_of_touch_same)

lemma distinct_touch: "distinct (map fst rs) \<Longrightarrow> distinct (map fst (touch room rs))"
  by (auto simp: touch_def map_of_eq_None_iff split: option.splits)

lemma active_touch: "active (touch room rs) = active rs"
  by (simp add: touch_def active_def split: option.splits)

lemma others_touch: "filter (\<lambda>p. fst p \<noteq> room) (touch room rs) = filter (\<lambda>p. fst p \<noteq> room) rs"
  by (simp add: touch_def split: option.splits)

lemma others_update: "filter (\<lambda>p. fst p \<noteq> k) (AList.update k v al) = filter (\<lambda>p. fst p \<noteq> k) al"
  by (induction al) auto

lemma others_delete: "filter (\<lambda>p. fst p \<noteq> k) (AList.delete k al) = filter (\<lambda>p. fst p \<noteq> k) al"
  by (induction al) auto

lemma members_of_update: "members_of r (AList.update room m rs) = (if r = room then m else members_of r rs)"
  by (simp add: members_of_def AList.update_conv')

lemma touch_update: "touch room (AList.update room m rs) = AList.update room m rs"
  by (simp add: touch_def AList.update_conv')

lemma delete_absent: "map_of m c = None \<Longrightarrow> AList.delete c m = m"
  by (induction m) (auto split: if_splits)

lemma update_members_triv: "AList.update room (members_of room rs) (touch room rs) = touch room rs"
  by (rule AList.update_triv) (rule map_of_touch_same)

lemma prune_step:
  "prune room (c # to_remove) rs =
     prune room to_remove (AList.update room (AList.delete c (members_of room rs)) (touch room rs))"
  by (simp add: Let_def members_of_touch delete_absent update_members_triv split: option.splits)

lemma delete_as_filter: "AList.delete c m = filter (\<lambda>p. fst p \<noteq> c) m"
  by (induction m) auto

lemma prune_closed:
  "to_remove \<noteq> [] \<Longrightarrow>
     prune room to_remove rs =
       AList.update room (filter (\<lambda>p. fst p \<notin> set to_remove) (members_of room rs)) (touch room rs)"
proof (induction to_remove arbitrary: rs)
  case Nil
  then show ?case by simp
next
  case (Cons c to_remove)
  let ?rs = "AList.update room (AList.delete c (members_of room rs)) (touch room rs)"
  show ?case
  proof (cases "to_remove = []")
    case True
    then show ?thesis
      by (simp only: prune_step prune.simps) (simp add: delete_as_filter)
  next
    case False
    have "prune room (c # to_remove) rs = prune room to_remove ?rs"
      by (rule prune_step)
    also have "\<dots> = AList.update room (filter (\<lambda>p. fst p \<notin> set to_remove) (members_of room ?rs)) (touch room ?rs)"
      using False by (rule Cons.IH)
    also have "\<dots> = AList.update room (filter (\<lambda>p. fst p \<notin> set (c # to_remove)) (members_of room rs)) (touch room rs)"
      by (simp add: members_of_update touch_update delete_as_filter conj_commute)
    finally show ?thesis .
  qed
qed

lemma send_loop_wire:
  "fst (send_loop nt message conns w to_remove) =
     w @ map (\<lambda>(k, c). (c, message, nt k)) (enumerate (length w) conns)"
  by (induction conns arbitrary: w to_remove) auto

lemma send_loop_failed:
  "snd (send_loop nt message conns w to_remove) =
     to_remove @ map snd (filter (\<lambda>(k, c). \<not> nt k) (enumerate (length w) conns))"
  by (induction conns arbitrary: w to_remove) auto

section \<open>Lemmas about broadcast\<close>

lemma broadcast_wire:
  "wire (broadcast nt room message st) =
     wire st @ map (\<lambda>(k, c). (c, message, nt k))
                 (enumerate (length (wire st)) (map fst (members_of room (rooms st))))"
  using send_loop_wire[of nt message "map fst (members_of room (rooms st))" "wire st" "[]"]
  by (simp add: broadcast_def Let_def members_of_touch case_prod_beta)

lemma broadcast_rooms:
  "rooms (broadcast nt room message st) =
     AList.update room
       (filter (\<lambda>p. fst p \<notin> set (failed nt (length (wire st)) (map fst (members_of room (rooms st)))))
          (members_of room (rooms st)))
       (touch room (rooms st))"
proof -
  let ?conns = "map fst (members_of room (rooms st))"
  let ?F = "failed nt (length (wire st)) ?conns"
  have F: "snd (send_loop nt message ?conns (wire st) []) = ?F"
    by (simp add: send_loop_failed failed_def)
  show ?thesis
  proof (cases "?F = []")
    case True
    have "rooms (broadcast nt room message st) = touch room (rooms st)"
      using F True by (simp add: broadcast_def Let_def members_of_touch case_prod_beta)
    then show ?thesis
      using True by (simp add: update_members_triv)
  next
    case False
    have "rooms (broadcast nt room message st) = prune room ?F (touch room (rooms st))"
      using F False by (simp add: broadcast_def Let_def members_of_touch case_prod_beta)
    then show ?thesis
      using False by (simp add: prune_closed members_of_touch touch_idem)
  qed
qed

lemma broadcast_members:
  "members_of room (rooms (broadcast nt room message st)) =
     filter (\<lambda>p. fst p \<notin> set (failed nt (length (wire st)) (map fst (members_of room (rooms st)))))
       (members_of room (rooms st))"
  by (simp add: broadcast_rooms members_of_update)

lemma broadcast_members_other:
  "r \<noteq> room \<Longrightarrow> members_of r (rooms (broadcast nt room message st)) = members_of r (rooms st)"
  by (simp add: broadcast_rooms members_of_update members_of_touch)

lemma broadcast_present: "map_of (rooms (broadcast nt room message st)) room \<noteq> None"
  by (simp add: broadcast_rooms AList.update_conv')

lemma broadcast_others:
  "filter (\<lambda>p. fst p \<noteq> room) (rooms (broadcast nt room message st)) =
     filter (\<lambda>p. fst p \<noteq> room) (rooms st)"
  by (simp add: broadcast_rooms others_update others_touch)

lemma broadcast_distinct:
  "distinct (map fst (rooms st)) \<Longrightarrow> distinct (map fst (rooms (broadcast nt room message st)))"
  by (simp add: broadcast_rooms AList.distinct_update distinct_touch)

lemma broadcast_all_ok:
  "\<forall>k. length (wire st) \<le> k \<and> k < length (wire st) + length (members_of room (rooms st)) \<longrightarrow> nt k
   \<Longrightarrow> failed nt (length (wire st)) (map fst (members_of room (rooms st))) = []"
  by (auto simp: failed_def filter_empty_conv in_set_enumerate_eq)

section \<open>Broadcast under failing sends\<close>

lemma failed_iff_attempt:
  "c \<in> set (failed nt n conns) \<longleftrightarrow>
     (c, message, False) \<in> (\<lambda>(k, c). (c, message, nt k)) ` set (enumerate n conns)"
  by (force simp: failed_def)

lemma map_fst_of_enumerate:
  "map (\<lambda>x. f (fst x)) (enumerate n xs) = map f [n ..< n + length xs]"
  by (subst map_fst_enumerate[symmetric, of n xs]) (simp only: map_map comp_def)

lemma broadcast_new_attempts:
  "drop (length (wire st)) (wire (broadcast nt room message st)) =
     map (\<lambda>(k, c). (c, message, nt k))
       (enumerate (length (wire st)) (map fst (members_of room (rooms st))))"
  by (simp add: broadcast_wire)

text \<open>
  Claim C5. A broadcast tries every connection of the snapshot, in the snapshot's order and
  exactly once, whatever the outcome of the other sends: the outcome of each attempt is the
  network's answer for that attempt alone. Every frame it puts on the wire is the given
  message, so no leave notice is produced for a connection whose send failed. Afterwards
  the room's members are the former members without the connections whose send failed.
\<close>

theorem broadcast_survives_failed_sends:
  fixes nt :: net and room :: string and message :: json and st :: state
  shows "map fst (drop (length (wire st)) (wire (broadcast nt room message st))) =
           map fst (members_of room (rooms st))
       \<and> map (snd \<circ> snd) (drop (length (wire st)) (wire (broadcast nt room message st))) =
           map nt [length (wire st) ..< length (wire st) + length (members_of room (rooms st))]
       \<and> (\<forall>a \<in> set (drop (length (wire st)) (wire (broadcast nt room message st))).
             fst (snd a) = message)
       \<and> take (length (wire st)) (wire (broadcast nt room message st)) = wire st
       \<and> members_of room (rooms (broadcast nt room message st)) =
           filter (\<lambda>p. (fst p, message, False) \<notin>
                          set (drop (length (wire st)) (wire (broadcast nt room message st))))
             (members_of room (rooms st))"
proof -
  let ?conns = "map fst (members_of room (rooms st))"
  let ?n = "length (wire st)"
  let ?new = "drop ?n (wire (broadcast nt room message st))"
  have new: "?new = map (\<lambda>(k, c). (c, message, nt k)) (enumerate ?n ?conns)"
    by (rule broadcast_new_attempts)
  have a: "map fst ?new = ?conns"
    unfolding new by (simp add: comp_def case_prod_beta enumerate_eq_zip)
  have b: "map (snd \<circ> snd) ?new = map nt [?n ..< ?n + length (members_of room (rooms st))]"
    unfolding new by (simp add: comp_def case_prod_beta map_fst_of_enumerate)
  have c: "\<forall>a \<in> set ?new. fst (snd a) = message"
    unfolding new by auto
  have d: "take ?n (wire (broadcast nt room message st)) = wire st"
    by (simp add: broadcast_wire)
  have e: "members_of room (rooms (broadcast nt room message st)) =
             filter (\<lambda>p. (fst p, message, False) \<notin> set ?new) (members_of room (rooms st))"
    unfolding new broadcast_members by (simp add: failed_iff_attempt[where message = message])
  from a b c d e show ?thesis by blast
qed

theorem broadcast_survives_failed_sends_witness:
  "wire (broadcast (\<lambda>n. n \<noteq> 1) ''r'' (JStr ''m'')
           \<lparr>rooms = [(''r'', [(1, make_info 1 1), (2, make_info 2 2), (3, make_info 3 3)])],
              wire = []\<rparr>)
     = [(1, JStr ''m'', True), (2, JStr ''m'', False), (3, JStr ''m'', True)]
   \<and> map fst (members_of ''r'' (rooms (broadcast (\<lambda>n. n \<noteq> 1) ''r'' (JStr ''m'')
           \<lparr>rooms = [(''r'', [(1, make_info 1 1), (2, make_info 2 2), (3, make_info 3 3)])],
              wire = []\<rparr>))) = [1, 3]"
  using broadcast_survives_failed_sends [where nt = "\<lambda>n. n \<noteq> 1" and room = "''r''"
      and message = "JStr ''m''" and st =
      "\<lparr>rooms = [(''r'', [(1, make_info 1 1), (2, make_info 2 2), (3, make_info 3 3)])], wire = []\<rparr>"]
  by (simp add: broadcast_def touch_def members_of_def)

section \<open>Lemmas about the listing and the cleanup\<close>

lemma active_set: "set (active rs) = {r. \<exists>m. (r, m) \<in> set rs \<and> m \<noteq> []}"
  by (auto simp: active_def) force

lemma active_iff:
  "distinct (map fst rs) \<Longrightarrow> r \<in> set (active rs) \<longleftrightarrow> members_of r rs \<noteq> []"
proof -
  assume d: "distinct (map fst rs)"
  have "(\<exists>m. (r, m) \<in> set rs \<and> m \<noteq> []) \<longleftrightarrow> (\<exists>m. map_of rs r = Some m \<and> m \<noteq> [])"
    using d by (simp add: map_of_eq_Some_iff)
  also have "\<dots> \<longleftrightarrow> members_of r rs \<noteq> []"
    by (simp add: members_of_def split: option.splits)
  finally show ?thesis
    by (simp add: active_set)
qed

lemma members_of_present: "members_of room rs = x # xs \<Longrightarrow> map_of rs room = Some (x # xs)"
  by (simp add: members_of_def split: option.splits)

lemma touch_present: "map_of rs room = Some m \<Longrightarrow> touch room rs = rs"
  by (simp add: touch_def)

lemma delete_update: "AList.delete k (AList.update k v al) = AList.delete k al"
  by (induction al) auto

lemma map_of_delete_same: "map_of (AList.delete k al) k = None"
  by (simp add: AList.delete_conv')

lemma leave_sole_member:
  assumes "members_of room rs = [(c, i)]"
  shows "leave c room rs = (nick i, AList.delete room rs)"
proof -
  have p: "map_of rs room = Some [(c, i)]"
    using assms by (rule members_of_present)
  then have t: "touch room rs = rs"
    by (rule touch_present)
  show ?thesis
    by (simp add: leave_def t assms Let_def touch_update members_of_update delete_update)
qed

lemma broadcast_empty_room:
  assumes "members_of room (rooms st) = []"
  shows "broadcast nt room message st = st\<lparr>rooms := touch room (rooms st)\<rparr>"
  by (simp add: broadcast_def Let_def members_of_touch assms)

lemma members_of_absent: "map_of rs room = None \<Longrightarrow> members_of room rs = []"
  by (simp add: members_of_def)

lemma touch_absent: "map_of rs room = None \<Longrightarrow> touch room rs = rs @ [(room, [])]"
  by (simp add: touch_def)

lemma cleanup_sole_member:
  assumes "members_of room (rooms st) = [(c, i)]"
  shows "cleanup nt c room st = st\<lparr>rooms := AList.delete room (rooms st) @ [(room, [])]\<rparr>"
proof -
  let ?rs = "AList.delete room (rooms st)"
  have absent: "map_of ?rs room = None"
    by (rule map_of_delete_same)
  have "leave_notice nt c room st =
          broadcast nt room (system_msg (nick i @ '' left.'') ''leave'') (st\<lparr>rooms := ?rs\<rparr>)"
    by (simp add: leave_notice_def leave_sole_member[OF assms])
  also have "\<dots> = st\<lparr>rooms := ?rs @ [(room, [])]\<rparr>"
    using absent by (simp add: broadcast_empty_room members_of_absent touch_absent)
  finally have n: "leave_notice nt c room st = st\<lparr>rooms := ?rs @ [(room, [])]\<rparr>" .
  have m: "members_of room (?rs @ [(room, [])]) = []"
    using absent by (simp add: members_of_def map_add_def split: option.splits)
  have t: "touch room (?rs @ [(room, [])]) = ?rs @ [(room, [])]"
    using absent by (simp add: touch_def map_add_def)
  show ?thesis
    using absent by (simp add: cleanup_def n Let_def broadcast_empty_room m t map_add_def)
qed

lemma active_delete_append: "room \<notin> set (active (AList.delete room rs @ [(room, [])]))"
  by (auto simp: active_set AList.delete_eq)

section \<open>The room listing and the last member's cleanup\<close>

lemma members_of_delete_append:
  "r \<noteq> room \<Longrightarrow> members_of r (AList.delete room rs @ [(room, m)]) = members_of r rs"
  by (simp add: members_of_def map_add_def AList.delete_conv' split: option.splits)

text \<open>
  Claim C4. On a registry whose room names are pairwise distinct (as the keys of a
  dictionary are), \<open>list_rooms\<close> answers \<open>{"rooms": l}\<close> where \<open>l\<close> holds exactly the rooms
  with at least one member; and right after the cleanup of a connection that was the only
  member of its room, the answer does not hold that room.
\<close>

theorem list_rooms_exact:
  assumes "distinct (map fst (rooms st))"
  shows "(\<exists>l. list_rooms st = [(''rooms'', l)]
              \<and> (\<forall>r. r \<in> set l \<longleftrightarrow> 1 \<le> length (members_of r (rooms st))))
       \<and> (members_of room (rooms st) = [(c, i)] \<longrightarrow>
            (\<exists>l. list_rooms (cleanup nt c room st) = [(''rooms'', l)] \<and> room \<notin> set l))"
proof -
  have "\<forall>r. r \<in> set (active (rooms st)) \<longleftrightarrow> 1 \<le> length (members_of r (rooms st))"
    using assms by (simp add: active_iff Suc_le_eq)
  then have a: "\<exists>l. list_rooms st = [(''rooms'', l)]
                  \<and> (\<forall>r. r \<in> set l \<longleftrightarrow> 1 \<le> length (members_of r (rooms st)))"
    by (simp add: list_rooms_def)
  have b: "members_of room (rooms st) = [(c, i)] \<longrightarrow>
            (\<exists>l. list_rooms (cleanup nt c room st) = [(''rooms'', l)] \<and> room \<notin> set l)"
    by (simp add: list_rooms_def cleanup_sole_member active_delete_append)
  from a b show ?thesis by blast
qed

theorem list_rooms_exact_witness:
  "distinct (map fst (rooms \<lparr>rooms = [(''a'', [(1, make_info 0 0)]), (''b'', [])], wire = []\<rparr>))
   \<and> list_rooms \<lparr>rooms = [(''a'', [(1, make_info 0 0)]), (''b'', [])], wire = []\<rparr>
       = [(''rooms'', [''a''])]
   \<and> members_of ''a'' (rooms \<lparr>rooms = [(''a'', [(1, make_info 0 0)]), (''b'', [])], wire = []\<rparr>)
       = [(1, make_info 0 0)]
   \<and> list_rooms (cleanup (\<lambda>n. True) 1 ''a''
         \<lparr>rooms = [(''a'', [(1, make_info 0 0)]), (''b'', [])], wire = []\<rparr>)
       = [(''rooms'', [])]"
  using list_rooms_exact [where st = "\<lparr>rooms = [(''a'', [(1, make_info 0 0)]), (''b'', [])], wire = []\<rparr>"
      and room = "''a''" and c = 1 and i = "make_info 0 0" and nt = "\<lambda>n. True"]
  by (simp add: list_rooms_def active_def members_of_def cleanup_def leave_notice_def leave_def
        broadcast_def touch_def)

text \<open>
  Claim C9. When the connection that disconnects is the only member of its room, the
  cleanup leaves every other entry of the registry as it was, in the same order (so every
  other room has the members it had), and the room listing no longer holds the room.
\<close>

theorem sole_member_disconnect_frame:
  assumes "members_of room (rooms st) = [(c, i)]"
  shows "filter (\<lambda>p. fst p \<noteq> room) (rooms (cleanup nt c room st)) =
           filter (\<lambda>p. fst p \<noteq> room) (rooms st)
       \<and> (\<forall>r. r \<noteq> room \<longrightarrow>
             members_of r (rooms (cleanup nt c room st)) = members_of r (rooms st))
       \<and> (\<exists>l. list_rooms (cleanup nt c room st) = [(''rooms'', l)] \<and> room \<notin> set l)"
  by (simp add: cleanup_sole_member[OF assms] others_delete members_of_delete_append
        list_rooms_def active_delete_append)

theorem sole_member_disconnect_frame_witness:
  "members_of ''general''
      (rooms \<lparr>rooms = [(''general'', [(1, make_info 0 0)]), (''other'', [(2, make_info 1 1)])],
               wire = []\<rparr>) = [(1, make_info 0 0)]
   \<and> members_of ''other'' (rooms (cleanup (\<lambda>n. True) 1 ''general''
        \<lparr>rooms = [(''general'', [(1, make_info 0 0)]), (''other'', [(2, make_info 1 1)])],
           wire = []\<rparr>)) = [(2, make_info 1 1)]
   \<and> list_rooms (cleanup (\<lambda>n. True) 1 ''general''
        \<lparr>rooms = [(''general'', [(1, make_info 0 0)]), (''other'', [(2, make_info 1 1)])],
           wire = []\<rparr>) = [(''rooms'', [''other''])]"
  using sole_member_disconnect_frame [where st =
      "\<lparr>rooms = [(''general'', [(1, make_info 0 0)]), (''other'', [(2, make_info 1 1)])], wire = []\<rparr>"
      and room = "''general''" and c = 1 and i = "make_info 0 0" and nt = "\<lambda>n. True"]
  by (simp add: list_rooms_def active_def members_of_def cleanup_def leave_notice_def leave_def
        broadcast_def touch_def)

text \<open>
  Claim C8, evaluated where the only member of \<open>general\<close> disconnects. The registry part of
  the cleanup deletes the room (line 257). The leave notice is then broadcast, and
  \<open>rooms[room]\<close> in \<open>broadcast\<close> (line 178) puts the room back with no member. So the test
  \<open>room in rooms\<close> (line 264) holds, the rooms message is broadcast to nobody, and the
  registry keeps the empty room.
\<close>

theorem cleanup_resurrects_room:
  "snd (leave 1 ''general'' [(''general'', [(1, make_info 0 0)]), (''other'', [(2, make_info 1 1)])])
     = [(''other'', [(2, make_info 1 1)])]
   \<and> map_of (rooms (leave_notice (\<lambda>n. True) 1 ''general''
        \<lparr>rooms = [(''general'', [(1, make_info 0 0)]), (''other'', [(2, make_info 1 1)])],
           wire = []\<rparr>)) ''general'' = Some []
   \<and> cleanup (\<lambda>n. True) 1 ''general''
        \<lparr>rooms = [(''general'', [(1, make_info 0 0)]), (''other'', [(2, make_info 1 1)])],
           wire = []\<rparr>
     = \<lparr>rooms = [(''other'', [(2, make_info 1 1)]), (''general'', [])], wire = []\<rparr>"
  by (simp add: cleanup_def leave_notice_def leave_def broadcast_def touch_def members_of_def
        active_def)

section \<open>The registry invariant\<close>

lemma distinct_register:
  "distinct (map fst rs) \<Longrightarrow> distinct (map fst (register c room i rs))"
  by (simp add: register_def Let_def AList.distinct_update distinct_touch)

lemma distinct_leave:
  "distinct (map fst rs) \<Longrightarrow> distinct (map fst (snd (leave c room rs)))"
  by (simp add: leave_def Let_def AList.distinct_update AList.distinct_delete distinct_touch
        split: option.splits)

lemma join_distinct:
  "distinct (map fst (rooms st)) \<Longrightarrow> distinct (map fst (rooms (state_of (join nt c room tok hue st))))"
  by (simp add: join_def state_of_def Let_def broadcast_distinct distinct_register)

lemma on_text_distinct:
  "distinct (map fst (rooms st)) \<Longrightarrow>
     distinct (map fst (rooms (state_of (on_text nt c room i data parsed st))))"
  by (simp add: on_text_def state_of_def Let_def broadcast_distinct distinct_touch
        split: option.splits json.splits)

lemma cleanup_distinct:
  "distinct (map fst (rooms st)) \<Longrightarrow> distinct (map fst (rooms (cleanup nt c room st)))"
proof -
  assume d: "distinct (map fst (rooms st))"
  have "distinct (map fst (rooms (leave_notice nt c room st)))"
    using distinct_leave[OF d, of c room]
    by (simp add: leave_notice_def case_prod_beta broadcast_distinct)
  then show ?thesis
    by (simp add: cleanup_def Let_def broadcast_distinct)
qed

lemma reachable_distinct: "reachable st \<Longrightarrow> distinct (map fst (rooms st))"
  by (induction rule: reachable.induct)
     (simp_all add: join_distinct on_text_distinct cleanup_distinct broadcast_distinct)

text \<open>
  Claim C1, as the program keeps it. In every state the process can reach, the registry is a
  dictionary (no room name twice) and every room that the listing returns has at least one
  member. The registry itself may hold a room with no member; the listing filters it out.
\<close>

theorem listed_rooms_have_members:
  assumes "reachable st" and "list_rooms st = [(''rooms'', l)]" and "r \<in> set l"
  shows "distinct (map fst (rooms st)) \<and> (\<exists>m. map_of (rooms st) r = Some m \<and> 1 \<le> length m)"
proof -
  have d: "distinct (map fst (rooms st))"
    using assms(1) by (rule reachable_distinct)
  have "r \<in> set (active (rooms st))"
    using assms(2,3) by (simp add: list_rooms_def)
  then have "members_of r (rooms st) \<noteq> []"
    using d by (simp add: active_iff)
  then have "\<exists>m. map_of (rooms st) r = Some m \<and> 1 \<le> length m"
    by (simp add: members_of_def Suc_le_eq split: option.splits)
  with d show ?thesis by simp
qed

lemma join_alone_eval:
  "state_of (join (\<lambda>n. True) 1 ''general'' 0 0 \<lparr>rooms = [], wire = []\<rparr>) =
     \<lparr>rooms = [(''general'', [(1, make_info 0 0)])],
      wire = [(1, meta_msg (make_info 0 0), True),
              (1, system_msg (nick (make_info 0 0) @ '' joined.'') ''join'', True),
              (1, rooms_msg [''general''], True)]\<rparr>"
  by (simp add: join_def state_of_def register_def broadcast_def touch_def members_of_def
        active_def Let_def)

theorem listed_rooms_have_members_witness:
  "reachable (state_of (join (\<lambda>n. True) 1 ''general'' 0 0 \<lparr>rooms = [], wire = []\<rparr>))
   \<and> list_rooms (state_of (join (\<lambda>n. True) 1 ''general'' 0 0 \<lparr>rooms = [], wire = []\<rparr>))
       = [(''rooms'', [''general''])]
   \<and> ''general'' \<in> set [''general'']
   \<and> map_of (rooms (state_of (join (\<lambda>n. True) 1 ''general'' 0 0 \<lparr>rooms = [], wire = []\<rparr>)))
        ''general'' = Some [(1, make_info 0 0)]"
proof -
  let ?s = "state_of (join (\<lambda>n. True) 1 ''general'' 0 0 \<lparr>rooms = [], wire = []\<rparr>)"
  have r: "reachable ?s"
    by (rule reachable.join[OF reachable.start])
  have l: "list_rooms ?s = [(''rooms'', [''general''])]"
    by (simp only: join_alone_eval) (simp add: list_rooms_def active_def)
  have g: "''general'' \<in> set [''general'']"
    by simp
  have m: "map_of (rooms ?s) ''general'' = Some [(1, make_info 0 0)]"
    by (simp only: join_alone_eval) simp
  from listed_rooms_have_members[OF r l g] r l g m show ?thesis
    by blast
qed

text \<open>
  The claim as stated fails: a connection joins \<open>general\<close>, receives its meta message and
  is gone when the join notice is sent to it. \<open>broadcast\<close> removes it from the room and
  leaves the room in the registry with no member.
\<close>

theorem empty_room_in_registry_counterexample:
  "reachable (state_of (join (\<lambda>n. n = 0) 1 ''general'' 0 0 \<lparr>rooms = [], wire = []\<rparr>))
   \<and> rooms (state_of (join (\<lambda>n. n = 0) 1 ''general'' 0 0 \<lparr>rooms = [], wire = []\<rparr>))
       = [(''general'', [])]"
proof -
  have "rooms (state_of (join (\<lambda>n. n = 0) 1 ''general'' 0 0 \<lparr>rooms = [], wire = []\<rparr>))
          = [(''general'', [])]"
    by (simp add: join_def state_of_def register_def broadcast_def touch_def members_of_def
          active_def Let_def)
  then show ?thesis
    using reachable.join[OF reachable.start, of "\<lambda>n. n = 0" 1 "''general''" 0 0] by simp
qed

section \<open>Joining an empty room\<close>

lemma state_eqI: "rooms s = r \<Longrightarrow> wire s = w \<Longrightarrow> (s::state) = \<lparr>rooms = r, wire = w\<rparr>"
  by (cases s) simp

lemma hexdigit_is_hex: "hexdigit d \<in> set ''0123456789abcdef''"
  unfolding hexdigit_def by (rule nth_mem) simp

lemma token_hex_form: "length (token_hex tok) = 4 \<and> set (token_hex tok) \<subseteq> set ''0123456789abcdef''"
  using hexdigit_is_hex by (simp add: token_hex_def Let_def)

lemma register_members:
  "members_of room (register c room i rs) = AList.update c i (members_of room rs)"
  by (simp add: register_def Let_def members_of_update members_of_touch)

lemma register_touch: "touch room (register c room i rs) = register c room i rs"
  by (simp add: register_def Let_def touch_update)

lemma register_listed: "room \<in> set (active (register c room i rs))"
proof -
  have "map_of (register c room i rs) room = Some (AList.update c i (members_of room rs))"
    by (simp add: register_def Let_def AList.update_conv' members_of_touch)
  then have "(room, AList.update c i (members_of room rs)) \<in> set (register c room i rs)"
    by (rule map_of_SomeD)
  then show ?thesis
    by (auto simp: active_set)
qed

lemma broadcast_single_ok:
  assumes "members_of room (rooms st) = [(c, i)]" and "nt (length (wire st))"
  shows "broadcast nt room message st =
           \<lparr>rooms = touch room (rooms st), wire = wire st @ [(c, message, True)]\<rparr>"
proof (rule state_eqI)
  have "failed nt (length (wire st)) (map fst (members_of room (rooms st))) = []"
    using assms by (simp add: failed_def)
  then show "rooms (broadcast nt room message st) = touch room (rooms st)"
    by (simp add: broadcast_rooms update_members_triv)
  show "wire (broadcast nt room message st) = wire st @ [(c, message, True)]"
    using assms by (simp add: broadcast_wire)
qed

text \<open>
  Claim C6. A connection \<open>c\<close> joins a room that has no member, and the three sends to it
  succeed. Then the join returns, and what it puts on the wire is, in this order and all
  delivered to \<open>c\<close>: the meta message with the identity of \<open>c\<close>, the system message
  \<open>join\<close> with the text \<open><nick> joined.\<close>, and a rooms message whose list holds the room.
  The nickname is \<open>Anon-\<close> and four hexadecimal digits, the colour an \<open>hsl\<close> string.
\<close>

theorem first_join_receives:
  assumes "members_of room (rooms st) = []"
    and "nt (length (wire st))"
    and "nt (length (wire st) + 1)"
    and "nt (length (wire st) + 2)"
  shows "\<exists>st' l h. join nt c room tok hue st = Inr st'
           \<and> wire st' = wire st @
                [(c, JObj [(''type'', JStr ''meta''),
                           (''you'', JObj [(''nick'', JStr (''Anon-'' @ h)),
                                           (''color'', JStr (''hsl('' @ str_nat hue @ '' 70% 55%)''))])],
                  True),
                 (c, JObj [(''type'', JStr ''system''), (''text'', JStr (''Anon-'' @ h @ '' joined.'')),
                           (''nick'', JStr ''System''), (''color'', JStr ''#666''),
                           (''system'', JStr ''join'')],
                  True),
                 (c, JObj [(''type'', JStr ''rooms''), (''rooms'', JArr (map JStr l))], True)]
           \<and> room \<in> set l
           \<and> length h = 4 \<and> set h \<subseteq> set ''0123456789abcdef''"
proof -
  let ?i = "make_info tok hue"
  let ?rs = "register c room ?i (rooms st)"
  let ?st2 = "\<lparr>rooms = ?rs, wire = wire st @ [(c, meta_msg ?i, True)]\<rparr>"
  let ?j = "system_msg (nick ?i @ '' joined.'') ''join''"
  let ?st3 = "\<lparr>rooms = ?rs, wire = wire st @ [(c, meta_msg ?i, True), (c, ?j, True)]\<rparr>"
  let ?l = "active ?rs"
  have m: "members_of room ?rs = [(c, ?i)]"
    using assms(1) by (simp add: register_members)
  have b1: "broadcast nt room ?j ?st2 = ?st3"
    using m assms(3) by (simp add: broadcast_single_ok register_touch)
  have b2: "broadcast nt room (rooms_msg ?l) ?st3 =
              \<lparr>rooms = ?rs, wire = wire st @ [(c, meta_msg ?i, True), (c, ?j, True),
                                             (c, rooms_msg ?l, True)]\<rparr>"
    using m assms(4) by (simp add: broadcast_single_ok register_touch)
  have s2: "st\<lparr>rooms := ?rs, wire := wire st @ [(c, meta_msg ?i, True)]\<rparr> = ?st2"
    by (cases st) simp
  have j: "join nt c room tok hue st =
             Inr \<lparr>rooms = ?rs, wire = wire st @ [(c, meta_msg ?i, True), (c, ?j, True),
                                                 (c, rooms_msg ?l, True)]\<rparr>"
    using assms(2) by (simp add: join_def Let_def s2 b1 b2)
  show ?thesis
    using token_hex_form[of tok] register_listed[of room c ?i "rooms st"]
    by (intro exI[of _ "\<lparr>rooms = ?rs, wire = wire st @ [(c, meta_msg ?i, True), (c, ?j, True),
                                                 (c, rooms_msg ?l, True)]\<rparr>"]
              exI[of _ ?l] exI[of _ "token_hex tok"])
       (simp add: j meta_msg_def info_json_def system_msg_def rooms_msg_def make_info_def)
qed

theorem first_join_receives_witness:
  "members_of ''general'' (rooms \<lparr>rooms = [], wire = []\<rparr>) = []
   \<and> join (\<lambda>n. True) 1 ''general'' 0xbeef 359 \<lparr>rooms = [], wire = []\<rparr> =
       Inr \<lparr>rooms = [(''general'', [(1, \<lparr>nick = ''Anon-beef'', color = ''hsl(359 70% 55%)''\<rparr>)])],
            wire =
              [(1, JObj [(''type'', JStr ''meta''),
                         (''you'', JObj [(''nick'', JStr ''Anon-beef''),
                                         (''color'', JStr ''hsl(359 70% 55%)'')])], True),
               (1, JObj [(''type'', JStr ''system''), (''text'', JStr ''Anon-beef joined.''),
                         (''nick'', JStr ''System''), (''color'', JStr ''#666''),
                         (''system'', JStr ''join'')], True),
               (1, JObj [(''type'', JStr ''rooms''), (''rooms'', JArr [JStr ''general''])], True)]\<rparr>"
  using first_join_receives [where st = "\<lparr>rooms = [], wire = []\<rparr>" and room = "''general''"
      and nt = "\<lambda>n. True" and c = 1 and tok = "0xbeef" and hue = 359]
  by (simp add: join_def register_def broadcast_def touch_def members_of_def active_def Let_def
        make_info_def token_hex_def hexdigit_def meta_msg_def info_json_def system_msg_def
        rooms_msg_def)

section \<open>Relaying a chat message\<close>

lemma on_text_msg:
  assumes "parsed = Some (JObj d) \<or> (parsed = None \<and> d = [(''type'', JStr ''msg''), (''text'', JStr data)])"
    and "map_of d ''type'' = Some (JStr ''msg'')"
    and "slice2000 (case map_of d ''text'' of Some t \<Rightarrow> t | None \<Rightarrow> JStr []) = Some text"
  shows "on_text nt c room i data parsed st =
           Inr (broadcast nt room
                  (chat_msg text (case map_of (members_of room (rooms st)) c of
                                    Some j \<Rightarrow> j | None \<Rightarrow> i))
                  (st\<lparr>rooms := touch room (rooms st)\<rparr>))"
  using assms by (auto simp: on_text_def Let_def members_of_touch)

lemma map_snd_of_enumerate: "map (\<lambda>x. g (snd x)) (enumerate n xs) = map g xs"
  by (induction xs arbitrary: n) simp_all

lemma broadcast_targets:
  "map (\<lambda>a. (fst a, fst (snd a))) (drop (length (wire st)) (wire (broadcast nt room message st))) =
     map (\<lambda>p. (fst p, message)) (members_of room (rooms st))"
  by (simp add: broadcast_wire comp_def case_prod_beta
        map_snd_of_enumerate[where g = "\<lambda>c. (c, message)"])

lemma on_text_msg_targets:
  "map (\<lambda>a. (fst a, fst (snd a)))
     (drop (length (wire st))
        (wire (broadcast nt room message (st\<lparr>rooms := touch room (rooms st)\<rparr>)))) =
     map (\<lambda>p. (fst p, message)) (members_of room (rooms st))"
  using broadcast_targets[of "st\<lparr>rooms := touch room (rooms st)\<rparr>" nt room message]
  by (simp add: members_of_touch)

text \<open>
  Claim C3. The handler receives a msg envelope (a dictionary with \<open>type\<close> \<open>msg\<close>) whose
  text is the string \<open>t\<close>. Then it broadcasts to the room one msg envelope, sent once to
  every member: the dictionary with \<open>type\<close> \<open>msg\<close>, the nickname and colour of the
  sender (as registered, or as captured at join when the registry has no entry), and a
  \<open>text\<close> that is the first 2000 characters of \<open>t\<close> when \<open>t\<close> is longer than 2000
  characters (so exactly 2000 characters), and \<open>t\<close> itself otherwise.
\<close>

theorem msg_text_truncated:
  assumes "parsed = Some (JObj d)"
    and "map_of d ''type'' = Some (JStr ''msg'')"
    and "map_of d ''text'' = Some (JStr t)"
  shows "\<exists>sender txt.
           sender = (case map_of (members_of room (rooms st)) c of Some j \<Rightarrow> j | None \<Rightarrow> i)
         \<and> on_text nt c room i data parsed st =
             Inr (broadcast nt room
                    (JObj [(''type'', JStr ''msg''), (''text'', JStr txt),
                           (''nick'', JStr (nick sender)), (''color'', JStr (color sender))])
                    (st\<lparr>rooms := touch room (rooms st)\<rparr>))
         \<and> map (\<lambda>a. (fst a, fst (snd a)))
               (drop (length (wire st)) (wire (state_of (on_text nt c room i data parsed st)))) =
             map (\<lambda>p. (fst p,
                        JObj [(''type'', JStr ''msg''), (''text'', JStr txt),
                              (''nick'', JStr (nick sender)), (''color'', JStr (color sender))]))
               (members_of room (rooms st))
         \<and> (if 2000 < length t then txt = take 2000 t \<and> length txt = 2000 else txt = t)"
proof -
  let ?sender = "case map_of (members_of room (rooms st)) c of Some j \<Rightarrow> j | None \<Rightarrow> i"
  let ?msg = "JObj [(''type'', JStr ''msg''), (''text'', JStr (take 2000 t)),
                    (''nick'', JStr (nick ?sender)), (''color'', JStr (color ?sender))]"
  have m: "chat_msg (JStr (take 2000 t)) ?sender = ?msg"
    by (simp only: chat_msg_def)
  have "on_text nt c room i data parsed st =
          Inr (broadcast nt room (chat_msg (JStr (take 2000 t)) ?sender)
                 (st\<lparr>rooms := touch room (rooms st)\<rparr>))"
    using assms by (intro on_text_msg[where d = d]) simp_all
  then have o: "on_text nt c room i data parsed st =
                  Inr (broadcast nt room ?msg (st\<lparr>rooms := touch room (rooms st)\<rparr>))"
    by (simp only: m)
  have w: "map (\<lambda>a. (fst a, fst (snd a)))
               (drop (length (wire st)) (wire (state_of (on_text nt c room i data parsed st)))) =
             map (\<lambda>p. (fst p, ?msg)) (members_of room (rooms st))"
    by (simp only: o state_of_def sum.case on_text_msg_targets)
  have t: "if 2000 < length t then take 2000 t = take 2000 t \<and> length (take 2000 t) = 2000
           else take 2000 t = t"
    by simp
  from o w t show ?thesis by blast
qed

theorem msg_text_truncated_witness:
  \<open>Some (JObj [(''type'', JStr ''msg''), (''text'', JStr (replicate 2001 CHR ''a''))]) =
     Some (JObj [(''type'', JStr ''msg''), (''text'', JStr (replicate 2001 CHR ''a''))])
   \<and> map_of [(''type'', JStr ''msg''), (''text'', JStr (replicate 2001 CHR ''a''))] ''type'' =
       Some (JStr ''msg'')
   \<and> map_of [(''type'', JStr ''msg''), (''text'', JStr (replicate 2001 CHR ''a''))] ''text'' =
       Some (JStr (replicate 2001 CHR ''a''))
   \<and> on_text (\<lambda>n. True) 1 ''general'' \<lparr>nick = ''Anon-0000'', color = ''hsl(0 70% 55%)''\<rparr>
         (''{"type":"msg","text":"'' @ replicate 2001 CHR ''a'' @ ''"}'')
         (Some (JObj [(''type'', JStr ''msg''), (''text'', JStr (replicate 2001 CHR ''a''))]))
         \<lparr>rooms = [(''general'', [(1, \<lparr>nick = ''Anon-0000'', color = ''hsl(0 70% 55%)''\<rparr>)])],
            wire = []\<rparr> =
       Inr \<lparr>rooms = [(''general'', [(1, \<lparr>nick = ''Anon-0000'', color = ''hsl(0 70% 55%)''\<rparr>)])],
            wire = [(1, JObj [(''type'', JStr ''msg''), (''text'', JStr (replicate 2000 CHR ''a'')),
                              (''nick'', JStr ''Anon-0000''),
                              (''color'', JStr ''hsl(0 70% 55%)'')], True)]\<rparr>
   \<and> length (replicate 2000 CHR ''a'') = 2000\<close>
  using msg_text_truncated [where parsed =
        "Some (JObj [(''type'', JStr ''msg''), (''text'', JStr (replicate 2001 CHR ''a''))])"
      and d = "[(''type'', JStr ''msg''), (''text'', JStr (replicate 2001 CHR ''a''))]"
      and t = "replicate 2001 CHR ''a''" and nt = "\<lambda>n. True" and c = 1 and room = "''general''"
      and i = "\<lparr>nick = ''Anon-0000'', color = ''hsl(0 70% 55%)''\<rparr>"
      and st = "\<lparr>rooms = [(''general'', [(1, \<lparr>nick = ''Anon-0000'', color = ''hsl(0 70% 55%)''\<rparr>)])],
                 wire = []\<rparr>"]
  by (simp add: on_text_def broadcast_def touch_def members_of_def chat_msg_def Let_def)

lemma in_enumerate: "c \<in> set xs \<Longrightarrow> \<exists>k. (k, c) \<in> set (enumerate n xs)"
proof -
  assume "c \<in> set xs"
  then obtain i where "i < length xs" and "xs ! i = c"
    by (auto simp: in_set_conv_nth)
  then have "(n + i, c) \<in> set (enumerate n xs)"
    by (simp add: in_set_enumerate_eq)
  then show ?thesis by blast
qed

text \<open>
  Claim C10. The handler receives a msg envelope (or a text that is not JSON, which it
  treats as one) from a connection \<open>c\<close> that is a member of the room. Then the msg
  envelope is sent once to every member of the room, the sender \<open>c\<close> among them; when
  no send fails, \<open>c\<close> has its own message delivered.
\<close>

theorem sender_receives_own_message:
  assumes "parsed = Some (JObj d) \<or>
             (parsed = None \<and> d = [(''type'', JStr ''msg''), (''text'', JStr data)])"
    and "map_of d ''type'' = Some (JStr ''msg'')"
    and "slice2000 (case map_of d ''text'' of Some t \<Rightarrow> t | None \<Rightarrow> JStr []) = Some body"
    and "map_of (members_of room (rooms st)) c = Some j"
  shows "\<exists>st'. on_text nt c room i data parsed st = Inr st'
           \<and> map (\<lambda>a. (fst a, fst (snd a))) (drop (length (wire st)) (wire st')) =
               map (\<lambda>p. (fst p, chat_msg body j)) (members_of room (rooms st))
           \<and> (c, chat_msg body j) \<in>
               set (map (\<lambda>a. (fst a, fst (snd a))) (drop (length (wire st)) (wire st')))
           \<and> ((\<forall>k. nt k) \<longrightarrow> (c, chat_msg body j, True) \<in> set (drop (length (wire st)) (wire st')))"
proof -
  let ?msg = "chat_msg body j"
  let ?st' = "broadcast nt room ?msg (st\<lparr>rooms := touch room (rooms st)\<rparr>)"
  let ?new = "drop (length (wire st)) (wire ?st')"
  have o: "on_text nt c room i data parsed st = Inr ?st'"
    using on_text_msg[OF assms(1,2,3), of nt c room i st] assms(4) by simp
  have w: "map (\<lambda>a. (fst a, fst (snd a))) ?new =
             map (\<lambda>p. (fst p, ?msg)) (members_of room (rooms st))"
    by (rule on_text_msg_targets)
  have "(c, j) \<in> set (members_of room (rooms st))"
    using assms(4) by (rule map_of_SomeD)
  then have m: "(c, ?msg) \<in> set (map (\<lambda>p. (fst p, ?msg)) (members_of room (rooms st)))"
    by force
  have n: "?new = map (\<lambda>(k, c). (c, ?msg, nt k))
                    (enumerate (length (wire st)) (map fst (members_of room (rooms st))))"
    using broadcast_new_attempts[of "st\<lparr>rooms := touch room (rooms st)\<rparr>" nt room ?msg]
    by (simp add: members_of_touch)
  have ok: "(\<forall>k. nt k) \<longrightarrow> (c, ?msg, True) \<in> set ?new"
  proof
    assume a: "\<forall>k. nt k"
    have "c \<in> set (map fst (members_of room (rooms st)))"
      using \<open>(c, j) \<in> set (members_of room (rooms st))\<close> by force
    then have "\<exists>k. (k, c) \<in> set (enumerate (length (wire st)) (map fst (members_of room (rooms st))))"
      by (rule in_enumerate)
    then obtain k where "(k, c) \<in> set (enumerate (length (wire st)) (map fst (members_of room (rooms st))))"
      ..
    then have "(c, ?msg, nt k) \<in> set ?new"
      unfolding n by force
    then show "(c, ?msg, True) \<in> set ?new"
      using a by simp
  qed
  from o w m ok show ?thesis
    by (intro exI[of _ ?st']) (simp only: w simp_thms)
qed

theorem sender_receives_own_message_witness:
  \<open>map_of [(''type'', JStr ''msg''), (''text'', JStr ''hi'')] ''type'' = Some (JStr ''msg'')
   \<and> slice2000 (case map_of [(''type'', JStr ''msg''), (''text'', JStr ''hi'')] ''text'' of
                   Some t \<Rightarrow> t | None \<Rightarrow> JStr []) = Some (JStr ''hi'')
   \<and> map_of (members_of ''general''
        (rooms \<lparr>rooms = [(''general'', [(1, make_info 0 0), (2, make_info 1 1)])], wire = []\<rparr>)) 1
       = Some (make_info 0 0)
   \<and> on_text (\<lambda>n. True) 1 ''general'' (make_info 0 0) ''{"type":"msg","text":"hi"}''
         (Some (JObj [(''type'', JStr ''msg''), (''text'', JStr ''hi'')]))
         \<lparr>rooms = [(''general'', [(1, make_info 0 0), (2, make_info 1 1)])], wire = []\<rparr> =
       Inr \<lparr>rooms = [(''general'', [(1, make_info 0 0), (2, make_info 1 1)])],
            wire = [(1, chat_msg (JStr ''hi'') (make_info 0 0), True),
                    (2, chat_msg (JStr ''hi'') (make_info 0 0), True)]\<rparr>\<close>
  using sender_receives_own_message [where parsed =
        "Some (JObj [(''type'', JStr ''msg''), (''text'', JStr ''hi'')])"
      and d = "[(''type'', JStr ''msg''), (''text'', JStr ''hi'')]"
      and body = "JStr ''hi''" and nt = "\<lambda>n. True" and c = 1 and room = "''general''"
      and i = "make_info 0 0" and j = "make_info 0 0"
      and st = "\<lparr>rooms = [(''general'', [(1, make_info 0 0), (2, make_info 1 1)])], wire = []\<rparr>"]
  by (simp add: on_text_def broadcast_def touch_def members_of_def Let_def)

section \<open>Frames that are not envelopes\<close>

lemma on_text_not_json:
  "on_text nt c room i data None st =
     Inr (broadcast nt room
            (chat_msg (JStr (take 2000 data))
               (case map_of (members_of room (rooms st)) c of Some j \<Rightarrow> j | None \<Rightarrow> i))
            (st\<lparr>rooms := touch room (rooms st)\<rparr>))"
  by (rule on_text_msg[where d = "[(''type'', JStr ''msg''), (''text'', JStr data)]"]) simp_all

lemma relay_not_json_continues:
  "relay nt c room i (Text data None # frames) st =
     relay nt c room i frames
       (broadcast nt room
          (chat_msg (JStr (take 2000 data))
             (case map_of (members_of room (rooms st)) c of Some j \<Rightarrow> j | None \<Rightarrow> i))
          (st\<lparr>rooms := touch room (rooms st)\<rparr>))"
  by (simp add: on_text_not_json)

text \<open>
  Claim C2, evaluated on the frame \<open>42\<close>, for which \<open>json.loads\<close> returns the integer 42.
  The fallback to a bare chat message only covers a text on which \<open>json.loads\<close> raises.
  Here \<open>payload.get\<close> raises AttributeError, the outer \<open>except\<close> ends the relay loop and
  the cleanup runs: the handler returns, nothing was relayed (the wire holds only the three
  frames of the join) and the next frame is never read. A text that is not JSON, such as
  \<open>hello\<close>, is relayed and the handler keeps waiting.
\<close>

theorem json_scalar_ends_session:
  "on_text (\<lambda>n. True) 5 ''general'' (make_info 0 0) ''42'' (Some (JInt 42))
      \<lparr>rooms = [(''general'', [(5, make_info 0 0)])], wire = []\<rparr>
     = Inl (AttributeError, \<lparr>rooms = [(''general'', [(5, make_info 0 0)])], wire = []\<rparr>)
   \<and> websocket_endpoint (\<lambda>n. True) 5 (Some ''general'') 0 0
        [Text ''42'' (Some (JInt 42)), Text ''hello'' None] \<lparr>rooms = [], wire = []\<rparr>
     = Returned \<lparr>rooms = [(''general'', [])],
                 wire = [(5, meta_msg (make_info 0 0), True),
                         (5, system_msg (nick (make_info 0 0) @ '' joined.'') ''join'', True),
                         (5, rooms_msg [''general''], True)]\<rparr>
   \<and> websocket_endpoint (\<lambda>n. True) 5 (Some ''general'') 0 0
        [Text ''hello'' None] \<lparr>rooms = [], wire = []\<rparr>
     = Waiting \<lparr>rooms = [(''general'', [(5, make_info 0 0)])],
                wire = [(5, meta_msg (make_info 0 0), True),
                        (5, system_msg (nick (make_info 0 0) @ '' joined.'') ''join'', True),
                        (5, rooms_msg [''general''], True),
                        (5, chat_msg (JStr ''hello'') (make_info 0 0), True)]\<rparr>"
proof -
  let ?w = "[(5, meta_msg (make_info 0 0), True),
             (5, system_msg (nick (make_info 0 0) @ '' joined.'') ''join'', True),
             (5, rooms_msg [''general''], True)]"
  let ?s = "\<lparr>rooms = [(''general'', [(5, make_info 0 0)])], wire = ?w\<rparr>"
  have j: "join (\<lambda>n. True) 5 ''general'' 0 0 \<lparr>rooms = [], wire = []\<rparr> = Inr ?s"
    by (simp add: join_def register_def broadcast_def touch_def members_of_def active_def Let_def)
  have a: "on_text (\<lambda>n. True) 5 ''general'' (make_info 0 0) ''42'' (Some (JInt 42))
             \<lparr>rooms = [(''general'', [(5, make_info 0 0)])], wire = []\<rparr>
           = Inl (AttributeError, \<lparr>rooms = [(''general'', [(5, make_info 0 0)])], wire = []\<rparr>)"
    by (simp add: on_text_def)
  have r: "relay (\<lambda>n. True) 5 ''general'' (make_info 0 0)
             [Text ''42'' (Some (JInt 42)), Text ''hello'' None] ?s = Inl (AttributeError, ?s)"
    by (simp add: on_text_def)
  have c: "cleanup (\<lambda>n. True) 5 ''general'' ?s = \<lparr>rooms = [(''general'', [])], wire = ?w\<rparr>"
    using cleanup_sole_member[of "''general''" ?s 5 "make_info 0 0" "\<lambda>n. True"]
    by (simp add: members_of_def)
  have h: "relay (\<lambda>n. True) 5 ''general'' (make_info 0 0) [Text ''hello'' None] ?s =
             Inr \<lparr>rooms = [(''general'', [(5, make_info 0 0)])],
                  wire = ?w @ [(5, chat_msg (JStr ''hello'') (make_info 0 0), True)]\<rparr>"
    by (simp add: on_text_def broadcast_def touch_def members_of_def Let_def)
  have b: "websocket_endpoint (\<lambda>n. True) 5 (Some ''general'') 0 0
             [Text ''42'' (Some (JInt 42)), Text ''hello'' None] \<lparr>rooms = [], wire = []\<rparr>
           = Returned \<lparr>rooms = [(''general'', [])], wire = ?w\<rparr>"
    by (simp add: websocket_endpoint_def resolve_room_def Let_def j r c del: relay.simps)
  have d: "websocket_endpoint (\<lambda>n. True) 5 (Some ''general'') 0 0
             [Text ''hello'' None] \<lparr>rooms = [], wire = []\<rparr>
           = Waiting \<lparr>rooms = [(''general'', [(5, make_info 0 0)])],
                      wire = ?w @ [(5, chat_msg (JStr ''hello'') (make_info 0 0), True)]\<rparr>"
    by (simp add: websocket_endpoint_def resolve_room_def Let_def j h del: relay.simps)
  from a b d show ?thesis by simp
qed

section \<open>Nicknames\<close>

lemma hexdigit_inj: "hexdigit a = hexdigit b \<Longrightarrow> a mod 16 = b mod 16"
proof -
  assume "hexdigit a = hexdigit b"
  moreover have "distinct ''0123456789abcdef''"
    by simp
  moreover have "a mod 16 < length ''0123456789abcdef''" and "b mod 16 < length ''0123456789abcdef''"
    by simp_all
  ultimately show ?thesis
    unfolding hexdigit_def by (simp only: nth_eq_iff_index_eq)
qed

lemma unat16: "unat (a :: 16 word) < 65536"
  using unsigned_less[of a, where 'a = nat] by simp

lemma nibbles_inj:
  fixes n m :: nat
  assumes "n < 65536" and "m < 65536"
    and "n div 4096 mod 16 = m div 4096 mod 16"
    and "n div 256 mod 16 = m div 256 mod 16"
    and "n div 16 mod 16 = m div 16 mod 16"
    and "n mod 16 = m mod 16"
  shows "n = m"
proof -
  have d: "\<And>k::nat. k = 16 * (k div 16) + k mod 16"
    by simp
  have "n div 16 = m div 16"
  proof -
    have "n div 16 div 16 = m div 16 div 16"
    proof -
      have "n div 16 div 16 div 16 = m div 16 div 16 div 16"
        using assms(1,2,3) by (simp add: div_mult2_eq[symmetric])
      moreover have "n div 16 div 16 mod 16 = m div 16 div 16 mod 16"
        using assms(4) by (simp add: div_mult2_eq[symmetric])
      ultimately show ?thesis
        using d[of "n div 16 div 16"] d[of "m div 16 div 16"] by simp
    qed
    then show ?thesis
      using assms(5) d[of "n div 16"] d[of "m div 16"] by simp
  qed
  then show ?thesis
    using assms(6) d[of n] d[of m] by simp
qed


lemma token_hex_inj: "token_hex a = token_hex b \<Longrightarrow> a = b"
proof -
  assume e: "token_hex a = token_hex b"
  have h: "hexdigit (unat a div 4096) = hexdigit (unat b div 4096)"
          "hexdigit (unat a div 256) = hexdigit (unat b div 256)"
          "hexdigit (unat a div 16) = hexdigit (unat b div 16)"
          "hexdigit (unat a) = hexdigit (unat b)"
    using e by (simp_all add: token_hex_def Let_def)
  have "unat a = unat b"
    using unat16[of a] unat16[of b] h(1)[THEN hexdigit_inj] h(2)[THEN hexdigit_inj]
      h(3)[THEN hexdigit_inj] h(4)[THEN hexdigit_inj]
    by (rule nibbles_inj)
  then show ?thesis
    by (simp add: word_unat_eq_iff)
qed

text \<open>
  The claim as stated fails: nothing compares a new nickname with those in the registry.
  Two connections for which the generator returns the same token are both live in the
  lobby with the nickname \<open>Anon-0007\<close>.
\<close>

theorem duplicate_nickname_counterexample:
  "map (\<lambda>p. (fst p, nick (snd p)))
     (members_of ''lobby''
        (rooms (state_of (join (\<lambda>n. True) 6 ''lobby'' 7 20
                 (state_of (join (\<lambda>n. True) 5 ''lobby'' 7 10 \<lparr>rooms = [], wire = []\<rparr>))))))
     = [(5, ''Anon-0007''), (6, ''Anon-0007'')]"
proof -
  let ?w = "[(5, meta_msg (make_info 7 10), True),
             (5, system_msg (nick (make_info 7 10) @ '' joined.'') ''join'', True),
             (5, rooms_msg [''lobby''], True)]"
  let ?s = "\<lparr>rooms = [(''lobby'', [(5, make_info 7 10)])], wire = ?w\<rparr>"
  have a: "state_of (join (\<lambda>n. True) 5 ''lobby'' 7 10 \<lparr>rooms = [], wire = []\<rparr>) = ?s"
    by (simp add: join_def state_of_def register_def broadcast_def touch_def members_of_def
          active_def Let_def)
  have b: "rooms (state_of (join (\<lambda>n. True) 6 ''lobby'' 7 20 ?s)) =
             [(''lobby'', [(5, make_info 7 10), (6, make_info 7 20)])]"
    by (simp add: join_def state_of_def register_def broadcast_def touch_def members_of_def
          active_def Let_def)
  show ?thesis
    unfolding a b by (simp add: members_of_def make_info_def token_hex_def hexdigit_def)
qed

text \<open>
  Claim C7, as the program keeps it. The identity registered for a joining connection has
  the nickname \<open>Anon-\<close> followed by the four hexadecimal digits of the token the generator
  returned, and two identities have the same nickname exactly when they were made from
  the same token: nicknames differ whenever the tokens differ, whatever the hues.
\<close>

theorem nickname_determined_by_token:
  "map_of (members_of room (register c room (make_info tok hue) rs)) c = Some (make_info tok hue)
   \<and> nick (make_info tok hue) = ''Anon-'' @ token_hex tok
   \<and> (nick (make_info tok hue) = nick (make_info tok' hue') \<longleftrightarrow> tok = tok')"
  using token_hex_inj[of tok tok']
  by (auto simp: register_members AList.update_conv' make_info_def)

theorem nickname_determined_by_token_witness:
  "nick (make_info 0xbeef 10) = ''Anon-beef''
   \<and> nick (make_info 0xbeef 10) \<noteq> nick (make_info 0xbeee 10)"
  using nickname_determined_by_token [where tok = "0xbeef" and tok' = "0xbeee" and hue = 10
      and hue' = 10 and c = 1 and room = "''lobby''" and rs = "[]"]
  by (simp add: make_info_def token_hex_def hexdigit_def)

end
